theory Spec2Isabelle
  imports Main "HOL-Library.Word"
begin

section \<open>Strings of the dashboard and the request form\<close>

text \<open>
  A JavaScript string is a sequence of UTF-16 code units; \<open>trim\<close>, \<open>RegExp.test\<close> (without
  the \<open>u\<close> flag) and \<open>Set.has\<close> all work on code units, so a string is a list of 16-bit words.
\<close>

type_synonym code_unit = "16 word"
type_synonym jsstring = "code_unit list"

section \<open>Dashboard: expanded rows\<close>

text \<open>
  \<^verbatim>\<open>
  const toggleRowExpansion = (id: string) => {
    setExpandedRows(prev => {
      const newSet = new Set(prev)
      if (newSet.has(id)) { newSet.delete(id) } else { newSet.add(id) }
      return newSet
    })
  }
  \<close>
  The state update is the function handed to \<open>setExpandedRows\<close>: it copies the previous set
  and returns the copy after one \<open>delete\<close> or one \<open>add\<close>. The page reads the set through
  \<open>expandedRows.has\<close> only, so the set is modelled by its membership.
\<close>

definition toggleRowExpansion :: "jsstring \<Rightarrow> jsstring set \<Rightarrow> jsstring set" where
  "toggleRowExpansion rid prev =
     (let newSet = prev in
      if rid \<in> newSet then newSet - {rid} else insert rid newSet)"

section \<open>Dashboard: page numbers\<close>

text \<open>
  An entry of the page list is a page number or the string \<open>'ellipsis'\<close>. The state variables
  \<open>page\<close> and \<open>totalPages\<close> are JavaScript numbers (IEEE 754 doubles) that hold finite whole
  numbers (\<open>Math.ceil\<close> of a quotient, and the page numbers the buttons pass). Such a number
  is modelled by the integer it denotes; every integer up to \<open>2^53\<close> in magnitude is one, and
  beyond that only the integers with a 53-bit significand are.
\<close>

datatype page_entry = Num int | Ellipsis

text \<open>The number of binary digits of a positive integer.\<close>

function bit_length :: "int \<Rightarrow> nat" where
  "bit_length z = (if z \<le> 0 then 0 else Suc (bit_length (z div 2)))"
  by pat_completeness auto
termination
  by (relation "measure nat") auto

declare bit_length.simps [simp del]

text \<open>
  The double nearest to an integer, ties going to the even significand: what an exact sum
  or difference of two doubles is rounded to. Up to \<open>2^53\<close> nothing is lost; above, the
  value keeps its 53 leading bits, \<open>q\<close> being the weight of the last one kept. No sum or
  difference that \<open>getPageNumbers\<close> forms from finite numbers leaves the finite range.
\<close>

definition to_double :: "int \<Rightarrow> int" where
  "to_double z =
     (if \<bar>z\<bar> \<le> 2 ^ 53 then z
      else
        (let q = 2 ^ (bit_length \<bar>z\<bar> - 53);
             m = \<bar>z\<bar> div q;
             r = \<bar>z\<bar> mod q;
             m' = (if 2 * r < q then m
                   else if q < 2 * r then m + 1
                   else if even m then m else m + 1)
         in sgn z * (m' * q)))"

text \<open>The operators \<open>+\<close> and \<open>-\<close> on numbers; \<open>i++\<close> is \<open>js_add i 1\<close>.\<close>

definition js_add :: "int \<Rightarrow> int \<Rightarrow> int" where
  "js_add a b = to_double (a + b)"

definition js_sub :: "int \<Rightarrow> int \<Rightarrow> int" where
  "js_sub a b = to_double (a - b)"

text \<open>
  The loop \<^verbatim>\<open>for (let i = a; i <= b; i++) { pages.push(i) }\<close>. Once \<open>i\<close> reaches \<open>2^53\<close> the
  increment rounds back to \<open>i\<close>, so the loop need not end: the result is \<open>Some\<close> list when
  the loop ends and \<open>None\<close> when it does not, in which case the caller gets no page list.
\<close>

partial_function (option) push_range ::
    "int \<Rightarrow> int \<Rightarrow> page_entry list \<Rightarrow> page_entry list option" where
  [code]: "push_range i n pages =
     (if i \<le> n then push_range (js_add i 1) n (pages @ [Num i]) else Some pages)"

definition getPageNumbers :: "int \<Rightarrow> int \<Rightarrow> page_entry list option" where
  "getPageNumbers page totalPages =
     (let pages = []; maxVisible = 5 in
      if totalPages \<le> maxVisible then push_range 1 totalPages pages
      else
        (let pages = pages @ [Num 1] in
         if page \<le> 3 then
           (case push_range 2 4 pages of
              None \<Rightarrow> None
            | Some pages \<Rightarrow>
                (let pages = pages @ [Ellipsis];
                     pages = pages @ [Num totalPages]
                 in Some pages))
         else if page \<ge> js_sub totalPages 2 then
           (let pages = pages @ [Ellipsis] in
            push_range (js_sub totalPages 3) totalPages pages)
         else
           (let pages = pages @ [Ellipsis] in
            case push_range (js_sub page 1) (js_add page 1) pages of
              None \<Rightarrow> None
            | Some pages \<Rightarrow>
                (let pages = pages @ [Ellipsis];
                     pages = pages @ [Num totalPages]
                 in Some pages))))"

text \<open>The numeric entries of a page list, in order (the entries rendered as buttons).\<close>

fun numeric_entries :: "page_entry list \<Rightarrow> int list" where
  "numeric_entries [] = []"
| "numeric_entries (Num n # ps) = n # numeric_entries ps"
| "numeric_entries (Ellipsis # ps) = numeric_entries ps"

section \<open>Request form: trimming and the email pattern\<close>

text \<open>
  The code units that \<open>String.prototype.trim\<close> strips and that \<open>\s\<close> matches in a regular
  expression: ECMAScript's WhiteSpace and LineTerminator (tab, line feed, vertical tab, form
  feed, carriage return, space, no-break space, U+1680, U+2000 to U+200A, U+2028, U+2029,
  U+202F, U+205F, U+3000 and U+FEFF).
\<close>

definition is_space :: "code_unit \<Rightarrow> bool" where
  "is_space c \<longleftrightarrow>
     c \<in> {0x0009, 0x000A, 0x000B, 0x000C, 0x000D, 0x0020, 0x00A0, 0x1680,
          0x2028, 0x2029, 0x202F, 0x205F, 0x3000, 0xFEFF}
     \<or> (0x2000 \<le> c \<and> c \<le> 0x200A)"

definition trim :: "jsstring \<Rightarrow> jsstring" where
  "trim s = rev (dropWhile is_space (rev (dropWhile is_space s)))"

text \<open>
  The pattern \<^verbatim>\<open>/^[^\s@]+@[^\s@]+\.[^\s@]+$/\<close> is a sequence of items between the two
  anchors; an item is one character class, once or repeated with \<open>+\<close>. A class is a literal
  code unit or the negated class \<open>[^\sc]\<close>. \<open>regex_test\<close> is \<open>RegExp.prototype.test\<close> for such an
  anchored pattern: the backtracking search succeeds when some way of splitting the string
  among the items exists.
\<close>

datatype cls = Lit code_unit | NotSpaceNor code_unit

fun cls_matches :: "cls \<Rightarrow> code_unit \<Rightarrow> bool" where
  "cls_matches (Lit c) x \<longleftrightarrow> x = c"
| "cls_matches (NotSpaceNor c) x \<longleftrightarrow> \<not> is_space x \<and> x \<noteq> c"

datatype item = Once cls | OneOrMore cls

fun regex_test :: "item list \<Rightarrow> jsstring \<Rightarrow> bool" where
  "regex_test [] s \<longleftrightarrow> s = []"
| "regex_test (Once c # r) [] \<longleftrightarrow> False"
| "regex_test (Once c # r) (x # xs) \<longleftrightarrow> cls_matches c x \<and> regex_test r xs"
| "regex_test (OneOrMore c # r) [] \<longleftrightarrow> False"
| "regex_test (OneOrMore c # r) (x # xs) \<longleftrightarrow>
     cls_matches c x \<and> (regex_test (OneOrMore c # r) xs \<or> regex_test r xs)"

text \<open>\<open>0x40\<close> is the at sign and \<open>0x2E\<close> the full stop.\<close>

definition emailRegex :: "item list" where
  "emailRegex =
     [OneOrMore (NotSpaceNor 0x40), Once (Lit 0x40), OneOrMore (NotSpaceNor 0x40),
      Once (Lit 0x2E), OneOrMore (NotSpaceNor 0x40)]"

text \<open>An ASCII literal as a JavaScript string, for writing examples.\<close>

definition js :: "string \<Rightarrow> jsstring" where
  "js s = map of_char s"

section \<open>Request form: the submit handler\<close>

text \<open>
  The component's state: the form fields, the \<open>loading\<close> flag and the message shown under
  the form. Messages are only displayed, so they are plain string literals here.
\<close>

record form_data =
  name :: jsstring
  email :: jsstring
  mobile :: jsstring
  company :: jsstring
  reason :: jsstring

record payload =
  payload_name :: jsstring
  payload_email :: "jsstring option"
  payload_mobile :: jsstring
  payload_company :: "jsstring option"
  payload_reason :: jsstring

record modal =
  formData :: form_data
  loading :: bool
  message :: string

text \<open>
  What a rejected \<open>authAPI.requestAccess\<close> throws: an object that may carry
  \<open>response.data.detail\<close> and \<open>message\<close>, or a bare string. The \<open>catch\<close> block takes the first
  of the two fields that is truthy (present and non-empty), then a bare string, then the
  default text.
\<close>

datatype js_error = ErrorObject "string option" "string option" | ErrorString string

fun errorMessage :: "js_error \<Rightarrow> string" where
  "errorMessage (ErrorObject (Some (c # cs)) m) = c # cs"
| "errorMessage (ErrorObject d (Some (c # cs))) = c # cs"
| "errorMessage (ErrorObject d m) = ''Failed to submit request. Please try again.''"
| "errorMessage (ErrorString s) = s"

text \<open>
  \<open>handleSubmit\<close> returns the payloads passed to \<open>authAPI.requestAccess\<close> (none or one) and
  the state after the handler, \<open>finally\<close> block included. \<open>loading\<close> is the flag as the
  handler reads it; a submission is in flight while it is set. The API call is a parameter:
  \<open>None\<close> when the promise resolves, \<open>Some error\<close> when it rejects. The two-second timer
  that closes the dialog after a success runs after the handler and is not part of it, and
  neither is the browser's own check of the \<open>required\<close> attributes, which happens before
  the handler is called.
\<close>

definition handleSubmit ::
    "(payload \<Rightarrow> js_error option) \<Rightarrow> modal \<Rightarrow> payload list \<times> modal" where
  "handleSubmit requestAccess st =
     (if loading st then ([], st)
      else if trim (name (formData st)) = [] then
        ([], st\<lparr>message := ''Name is required''\<rparr>)
      else if trim (mobile (formData st)) = [] then
        ([], st\<lparr>message := ''Mobile number is required''\<rparr>)
      else if trim (reason (formData st)) = [] then
        ([], st\<lparr>message := ''Reason for access is required''\<rparr>)
      else
        (let st = st\<lparr>loading := True, message := []\<rparr>;
             emailTrimmed = trim (email (formData st))
         in if emailTrimmed \<noteq> [] \<and> \<not> regex_test emailRegex emailTrimmed then
              ([], st\<lparr>message := ''Please enter a valid email address'', loading := False\<rparr>)
            else
              (let companyTrimmed = trim (company (formData st));
                   p = \<lparr>payload_name = trim (name (formData st)),
                        payload_email =
                          (if emailTrimmed \<noteq> [] then Some emailTrimmed else None),
                        payload_mobile = trim (mobile (formData st)),
                        payload_company =
                          (if companyTrimmed \<noteq> [] then Some companyTrimmed else None),
                        payload_reason = trim (reason (formData st))\<rparr>
               in case requestAccess p of
                    None \<Rightarrow>
                      ([p], st\<lparr>message :=
                         ''Request submitted successfully! An admin will review your request.'',
                         loading := False\<rparr>)
                  | Some error \<Rightarrow>
                      ([p], st\<lparr>message := errorMessage error, loading := False\<rparr>))))"

section \<open>Ingestion core: validation and the batch write\<close>

text \<open>
  The ingestion core (codec, batch writer, query and fallback service) is the repository's
  Python backend. The definitions of this section and the next follow the specification's
  sections 3, 4.2, 4.4, 4.6 and 7 and the feature's documentation
  (\<open>docs/CORPORATE_ANNOUNCEMENTS.md\<close>), not backend code. Backend strings are plain
  character lists.
\<close>

text \<open>
  Modelled from the spec: the codec's case-insensitive comparison (section 4.2); the
  backend's own string lowering is missing. Only the letters A to Z change.
\<close>

definition to_lower :: "char \<Rightarrow> char" where
  "to_lower c =
     (case map_of (zip ''ABCDEFGHIJKLMNOPQRSTUVWXYZ'' ''abcdefghijklmnopqrstuvwxyz'') c of
        None \<Rightarrow> c
      | Some l \<Rightarrow> l)"

text \<open>
  Modelled from the spec: the codec's blank test (section 4.2, Validation); the backend
  parser is missing. A field is blank when it is absent or is one of the placeholder values
  \<open>""\<close>, \<open>"-"\<close>, \<open>"null"\<close>, \<open>"None"\<close>, compared case-insensitively.
\<close>

definition is_blank :: "string option \<Rightarrow> bool" where
  "is_blank v \<longleftrightarrow>
     (case v of
        None \<Rightarrow> True
      | Some s \<Rightarrow> map to_lower s \<in> {'''', ''-'', ''null'', ''none''})"

text \<open>
  Modelled from the spec: an inbound message after the codec's key lookup (section 4.2,
  step 1); the lookup itself is missing. Each field is the value found under one of its key
  variants, or absent. The fields no claim reads (category, exchange, the timestamps, the
  attachment and the raw payload) are left out.
\<close>

record message =
  msg_id :: "string option"
  msg_headline :: "string option"
  msg_description :: "string option"
  msg_symbol :: "string option"

text \<open>
  Modelled from the spec: the Announcement entity (section 3), with the same fields left
  out; the backend's table and row type are missing.
\<close>

record announcement =
  ann_id :: string
  symbolPrimary :: "string option"
  headline :: "string option"
  description :: "string option"

text \<open>
  Modelled from the spec: the two ways the codec rejects a message (section 4.2,
  Validation; section 7, ValidationError).
\<close>

datatype codec_error = MissingId | BlankContent

text \<open>
  Modelled from the spec: the codec's validation (section 4.2); the backend parser is
  missing. A message is rejected when its id is missing or when headline and description
  are both blank; otherwise it becomes an Announcement.
\<close>

definition decode :: "message \<Rightarrow> codec_error + announcement" where
  "decode m =
     (case msg_id m of
        None \<Rightarrow> Inl MissingId
      | Some i \<Rightarrow>
          if is_blank (msg_headline m) \<and> is_blank (msg_description m) then Inl BlankContent
          else Inr \<lparr>ann_id = i, symbolPrimary = msg_symbol m, headline = msg_headline m,
                    description = msg_description m\<rparr>)"

text \<open>
  Modelled from the spec: step (a) of the batch writer (section 4.4); the writer is missing.
  Codec validation is applied to each raw item and the invalid ones are dropped.
\<close>

fun validated :: "message list \<Rightarrow> announcement list" where
  "validated [] = []"
| "validated (m # ms) =
     (case decode m of Inl e \<Rightarrow> validated ms | Inr a \<Rightarrow> a # validated ms)"

text \<open>
  Modelled from the spec: step (b) of the batch writer (section 4.4); the writer is missing.
  Each surviving id is checked against the primary keys in the store and the items whose id
  is already there are dropped.
\<close>

definition fresh_rows :: "announcement list \<Rightarrow> message list \<Rightarrow> announcement list" where
  "fresh_rows rows items =
     filter (\<lambda>a. ann_id a \<notin> set (map ann_id rows)) (validated items)"

text \<open>
  Modelled from the spec: the store's unique key on \<open>id\<close> (section 6) and the rule that a
  write with an existing id is a skip, not an update (section 3); the store is missing.
  Inserting a row whose id is already a primary key leaves the store as it is.
\<close>

definition insert_row :: "announcement list \<Rightarrow> announcement \<Rightarrow> announcement list" where
  "insert_row rows a = (if ann_id a \<in> set (map ann_id rows) then rows else rows @ [a])"

text \<open>
  Modelled from the spec: step (c) of the batch writer (section 4.4), for a commit that
  succeeds; the writer is missing. The remaining rows are inserted in one transaction, in
  arrival order, each under the unique key.
\<close>

definition write_batch :: "announcement list \<Rightarrow> message list \<Rightarrow> announcement list" where
  "write_batch rows items = foldl insert_row rows (fresh_rows rows items)"

text \<open>
  Modelled from the spec: the rows a batch write has freshly persisted (section 4.6), the
  rows of the store that the write added.
\<close>

definition persisted_rows :: "announcement list \<Rightarrow> message list \<Rightarrow> announcement list" where
  "persisted_rows rows items = drop (length rows) (write_batch rows items)"


section \<open>Ingestion core: the fallback path\<close>

text \<open>
  Modelled from the spec: the outcome a FetchMarker records (section 3).
\<close>

datatype fetch_outcome = FoundData | NoData

text \<open>
  Modelled from the spec: the failure of the external backfill call (section 7).
\<close>

datatype fetch_error = FallbackFetchError

text \<open>
  Modelled from the spec: what the fallback path reads and writes (sections 3 and 4.6); the
  query service is missing. The store, the FetchMarkers, and a log of the external fetch
  calls made so far: the symbol asked for and whether the call completed. The lookback
  window is fixed, so a marker's key is the symbol.
\<close>

record fallback_state =
  store :: "announcement list"
  markers :: "string \<rightharpoonup> fetch_outcome"
  fetches :: "(string \<times> bool) list"

text \<open>
  Modelled from the spec: the rows a symbol filter matches (section 4.6); the query service
  is missing. The filter is compared with the primary symbol.
\<close>

definition has_symbol :: "string \<Rightarrow> announcement \<Rightarrow> bool" where
  "has_symbol symbol a \<longleftrightarrow> symbolPrimary a = Some symbol"

text \<open>
  Modelled from the spec: a read that filters by a symbol, with its fallback (section 4.6
  and section 7, FallbackFetchError); the query service is missing. \<open>response\<close> is what the
  external service answers if it is called during this request: an error or the fetched
  items. Local rows are returned as they are. With no local row the request triggers the
  fallback: an existing marker skips the fetch; otherwise the fetch is made, a failed fetch
  gives an empty result and writes no marker, and a completed one persists its items
  through the batch write, records a marker and returns the freshly persisted rows.
\<close>

definition query ::
    "fetch_error + message list \<Rightarrow> string \<Rightarrow> fallback_state \<Rightarrow>
     announcement list \<times> fallback_state" where
  "query response symbol st =
     (let local = filter (has_symbol symbol) (store st) in
      if local \<noteq> [] then (local, st)
      else
        (case markers st symbol of
           Some outcome \<Rightarrow> ([], st)
         | None \<Rightarrow>
             (case response of
                Inl e \<Rightarrow> ([], st\<lparr>fetches := fetches st @ [(symbol, False)]\<rparr>)
              | Inr items \<Rightarrow>
                  (persisted_rows (store st) items,
                   st\<lparr>store := write_batch (store st) items,
                      markers :=
                        (markers st)(symbol \<mapsto> (if items = [] then NoData else FoundData)),
                      fetches := fetches st @ [(symbol, True)]\<rparr>))))"

text \<open>
  Modelled from the spec: a sequence of symbol-filtered reads, each with the answer the
  external service would give it (section 8, Fallback single-attempt).
\<close>

fun run :: "((fetch_error + message list) \<times> string) list \<Rightarrow> fallback_state \<Rightarrow> fallback_state" where
  "run [] st = st"
| "run ((response, symbol) # qs) st = run qs (snd (query response symbol st))"

text \<open>
  Modelled from the spec: the number of external fetch calls made for a symbol (section 8,
  Fallback single-attempt), read off the call log.
\<close>

definition attempted :: "string \<Rightarrow> fallback_state \<Rightarrow> nat" where
  "attempted symbol st = length (filter (\<lambda>call. fst call = symbol) (fetches st))"

text \<open>
  Modelled from the spec: the number of external fetch calls for a symbol that completed,
  that is, did not end in a FallbackFetchError (section 7).
\<close>

definition completed :: "string \<Rightarrow> fallback_state \<Rightarrow> nat" where
  "completed symbol st = count_list (fetches st) (symbol, True)"

text \<open>
  Modelled from the spec: the service before any request (empty store, no marker, no call).
\<close>

definition start :: fallback_state where
  "start = \<lparr>store = [], markers = Map.empty, fetches = []\<rparr>"

text \<open>
  Modelled from the spec: the invariant behind the single-attempt reconciliation (section
  4.6). No symbol has more than one completed fetch in the log, and a symbol without a
  marker has none.
\<close>

definition marker_sound :: "fallback_state \<Rightarrow> bool" where
  "marker_sound st \<longleftrightarrow>
     (\<forall>symbol. completed symbol st \<le> 1
        \<and> (markers st symbol = None \<longrightarrow> completed symbol st = 0))"

section \<open>Properties of the expanded-row update\<close>

text \<open>
  Claim C9. The row-expansion update is an involution that touches only the given id:
  one application flips the membership of exactly that id and leaves the membership of
  every other id as it was, and two applications give back the original set.
\<close>

theorem toggleRowExpansion_involution:
  "(rid \<in> toggleRowExpansion rid prev \<longleftrightarrow> rid \<notin> prev)
   \<and> (\<forall>other. other \<noteq> rid \<longrightarrow>
         (other \<in> toggleRowExpansion rid prev \<longleftrightarrow> other \<in> prev))
   \<and> toggleRowExpansion rid (toggleRowExpansion rid prev) = prev"
  by (auto simp: toggleRowExpansion_def Let_def)

theorem toggleRowExpansion_involution_witness:
  "[0x41, 0x31] \<in> toggleRowExpansion [0x41, 0x31] {[0x42]}
   \<and> [0x42] \<in> toggleRowExpansion [0x41, 0x31] {[0x42]}
   \<and> toggleRowExpansion [0x41, 0x31] (toggleRowExpansion [0x41, 0x31] {[0x42]}) = {[0x42]}"
  using toggleRowExpansion_involution [of "[0x41, 0x31]" "{[0x42]}"]
  by simp

section \<open>Properties of the page list\<close>

lemma push_range_stuck:
  assumes "i \<le> n" and "js_add i 1 = i"
  shows "push_range i n pages = None"
proof (cases "push_range i n pages")
  case None
  then show ?thesis .
next
  case (Some y)
  have "\<not> (i \<le> n \<and> js_add i 1 = i)"
  proof (rule push_range.raw_induct
      [where P = "\<lambda>i n pages y. \<not> (i \<le> n \<and> js_add i 1 = i)", OF _ Some])
    fix f i n pages y
    assume IH: "\<And>i n pages y. f i n pages = Some y \<Longrightarrow> \<not> (i \<le> n \<and> js_add i 1 = i)"
      and eq: "(if i \<le> n then f (js_add i 1) n (pages @ [Num i]) else Some pages) = Some y"
    show "\<not> (i \<le> n \<and> js_add i 1 = i)"
    proof
      assume a: "i \<le> n \<and> js_add i 1 = i"
      then have "f i n (pages @ [Num i]) = Some y" using eq by simp
      from IH [OF this] a show False by simp
    qed
  qed
  with assms show ?thesis by simp
qed

lemma push_range_safe:
  "n < 2 ^ 53 \<Longrightarrow> - (2 ^ 53) \<le> i \<Longrightarrow> push_range i n pages = Some (pages @ map Num [i..n])"
proof (induction "nat (n + 1 - i)" arbitrary: i pages)
  case 0
  then have "n < i" by simp
  then show ?case by (subst push_range.simps) simp
next
  case (Suc k)
  then have le: "i \<le> n" by simp
  have "\<bar>i + 1\<bar> \<le> 2 ^ 53" using Suc.prems le by simp
  then have a: "js_add i 1 = i + 1" by (simp add: js_add_def to_double_def)
  have "push_range (i + 1) n (pages @ [Num i]) = Some ((pages @ [Num i]) @ map Num [i + 1..n])"
    using Suc by (intro Suc.hyps) simp_all
  then show ?case
    using le by (subst push_range.simps) (simp add: a upto_rec1 [of i n])
qed


lemma to_double_exact: "\<bar>z\<bar> \<le> 2 ^ 53 \<Longrightarrow> to_double z = z"
  by (simp add: to_double_def)

lemma numeric_entries_map_Num: "numeric_entries (map Num xs) = xs"
  by (induction xs) simp_all

lemma sorted_wrt_less_upto: "sorted_wrt (<) [i..j]"
  by (simp add: strict_sorted_iff)

lemma last_upto: "i \<le> j \<Longrightarrow> last [i..j] = j"
  by (simp add: upto_rec2)

lemma getPageNumbers_small:
  assumes "totalPages \<le> 5"
  shows "getPageNumbers page totalPages = Some (map Num [1..totalPages])"
  using assms by (simp add: getPageNumbers_def push_range_safe)

lemma getPageNumbers_start:
  assumes "5 < totalPages" "page \<le> 3"
  shows "getPageNumbers page totalPages =
    Some [Num 1, Num 2, Num 3, Num 4, Ellipsis, Num totalPages]"
  using assms by (simp add: getPageNumbers_def push_range_safe upto_rec1)

lemma getPageNumbers_end:
  assumes "5 < totalPages" "3 < page" "totalPages - 2 \<le> page" "totalPages < 2 ^ 53"
  shows "getPageNumbers page totalPages =
    Some [Num 1, Ellipsis, Num (totalPages - 3), Num (totalPages - 2), Num (totalPages - 1),
     Num totalPages]"
  using assms
  by (simp add: getPageNumbers_def js_sub_def to_double_exact push_range_safe upto_rec1)

lemma getPageNumbers_middle:
  assumes "5 < totalPages" "3 < page" "page < totalPages - 2" "totalPages < 2 ^ 53"
  shows "getPageNumbers page totalPages =
    Some [Num 1, Ellipsis, Num (page - 1), Num page, Num (page + 1), Ellipsis, Num totalPages]"
  using assms
  by (simp add: getPageNumbers_def js_sub_def js_add_def to_double_exact push_range_safe
      upto_rec1)

text \<open>
  Claim C8 as stated fails for page counts beyond the exact range of a number. At
  \<open>page = totalPages = 2^53\<close> the end branch counts from \<open>2^53 - 3\<close>; when the counter
  reaches \<open>2^53\<close> the increment rounds back to \<open>2^53\<close>, the loop condition stays true and
  no page list is returned.
\<close>

theorem getPageNumbers_unsafe_total:
  "getPageNumbers 9007199254740992 9007199254740992 = None"
proof -
  have stuck: "js_add 9007199254740992 1 = 9007199254740992"
    by code_simp
  have s: "js_sub 9007199254740992 2 = 9007199254740990"
    "js_sub 9007199254740992 3 = 9007199254740989"
    "js_add 9007199254740989 1 = 9007199254740990"
    "js_add 9007199254740990 1 = 9007199254740991"
    "js_add 9007199254740991 1 = 9007199254740992"
    by (simp_all add: js_sub_def js_add_def to_double_def)
  have "push_range 9007199254740992 9007199254740992 pages = None" for pages
    using stuck by (intro push_range_stuck) simp_all
  then have "push_range 9007199254740989 9007199254740992 pages = None" for pages
    by (simp add: push_range.simps [of 9007199254740989] push_range.simps [of 9007199254740990]
        push_range.simps [of 9007199254740991] s)
  then show ?thesis
    by (simp add: getPageNumbers_def s)
qed

text \<open>
  Claim C8, amended. For \<open>1 \<le> page \<le> totalPages < 2^53\<close> (a page count of at most
  \<open>Number.MAX_SAFE_INTEGER\<close>) \<open>getPageNumbers\<close> returns a list; its numeric entries are
  strictly increasing, it starts with page 1, its last numeric entry is \<open>totalPages\<close>, and
  it contains the current page; for \<open>totalPages \<le> 5\<close> the list is exactly
  \<open>[1, 2, \<dots>, totalPages]\<close> and has no ellipsis.
\<close>

theorem getPageNumbers_shape:
  assumes "1 \<le> page" and "page \<le> totalPages" and "totalPages < 2 ^ 53"
  shows "\<exists>pages. getPageNumbers page totalPages = Some pages
       \<and> sorted_wrt (<) (numeric_entries pages)
       \<and> hd pages = Num 1
       \<and> last (numeric_entries pages) = totalPages
       \<and> Num page \<in> set pages
       \<and> (totalPages \<le> 5 \<longrightarrow> pages = map Num [1..totalPages] \<and> Ellipsis \<notin> set pages)"
proof (cases "totalPages \<le> 5")
  case True
  have eq: "getPageNumbers page totalPages = Some (map Num [1..totalPages])"
    using True by (rule getPageNumbers_small)
  have one: "1 \<le> totalPages" using assms by simp
  have "hd (map Num [1..totalPages]) = Num 1"
    using one by (simp add: upto_rec1)
  moreover have "last [1..totalPages] = totalPages"
    using one by (rule last_upto)
  moreover have "Num page \<in> set (map Num [1..totalPages])"
    using assms by simp
  moreover have "Ellipsis \<notin> set (map Num [1..totalPages])"
    by auto
  ultimately show ?thesis
    using True by (simp add: eq numeric_entries_map_Num sorted_wrt_less_upto)
next
  case big: False
  show ?thesis
  proof (cases "page \<le> 3")
    case True
    have "page = 1 \<or> page = 2 \<or> page = 3" using assms True by arith
    then show ?thesis
      using big by (auto simp: getPageNumbers_start [OF _ True])
  next
    case notstart: False
    show ?thesis
    proof (cases "totalPages - 2 \<le> page")
      case True
      have "page = totalPages - 2 \<or> page = totalPages - 1 \<or> page = totalPages"
        using assms True by arith
      then show ?thesis
        using big notstart True assms(3) by (auto simp: getPageNumbers_end)
    next
      case False
      then show ?thesis
        using big notstart assms(3) by (simp add: getPageNumbers_middle)
    qed
  qed
qed

theorem getPageNumbers_shape_witness:
  "getPageNumbers 5 10 = Some [Num 1, Ellipsis, Num 4, Num 5, Num 6, Ellipsis, Num 10]
   \<and> getPageNumbers 2 3 = Some [Num 1, Num 2, Num 3]
   \<and> getPageNumbers 9007199254740991 9007199254740991 =
       Some [Num 1, Ellipsis, Num 9007199254740988, Num 9007199254740989,
             Num 9007199254740990, Num 9007199254740991]"
proof -
  have a: "(1::int) \<le> 5" "(5::int) \<le> 10" "(10::int) < 2 ^ 53"
    "(1::int) \<le> 2" "(2::int) \<le> 3" "(3::int) < 2 ^ 53"
    "(1::int) \<le> 9007199254740991" "(9007199254740991::int) \<le> 9007199254740991"
    "(9007199254740991::int) < 2 ^ 53"
    by simp_all
  have m: "getPageNumbers 5 10 = Some [Num 1, Ellipsis, Num 4, Num 5, Num 6, Ellipsis, Num 10]"
    by (simp add: getPageNumbers_middle)
  have s: "getPageNumbers 2 3 = Some [Num 1, Num 2, Num 3]"
    by (simp add: getPageNumbers_small upto_rec1)
  have e: "getPageNumbers 9007199254740991 9007199254740991 =
       Some [Num 1, Ellipsis, Num 9007199254740988, Num 9007199254740989,
             Num 9007199254740990, Num 9007199254740991]"
    by (simp add: getPageNumbers_end)
  show ?thesis
    using getPageNumbers_shape [OF a(1) a(2) a(3)] getPageNumbers_shape [OF a(4) a(5) a(6)]
      getPageNumbers_shape [OF a(7) a(8) a(9)]
    by (simp add: m s e)
qed

section \<open>Properties of the request form\<close>

lemma regex_test_Once:
  "regex_test (Once c # r) s \<longleftrightarrow>
     (\<exists>x xs. s = x # xs \<and> cls_matches c x \<and> regex_test r xs)"
  by (cases s) simp_all

lemma regex_test_OneOrMore:
  "regex_test (OneOrMore c # r) s \<longleftrightarrow>
     (\<exists>a b. s = a @ b \<and> a \<noteq> [] \<and> (\<forall>x\<in>set a. cls_matches c x) \<and> regex_test r b)"
proof (induction s)
  case Nil
  then show ?case by simp
next
  case (Cons x xs)
  show ?case
  proof
    assume "regex_test (OneOrMore c # r) (x # xs)"
    then have m: "cls_matches c x"
      and d: "regex_test (OneOrMore c # r) xs \<or> regex_test r xs"
      by simp_all
    from d show "\<exists>a b. x # xs = a @ b \<and> a \<noteq> [] \<and> (\<forall>x\<in>set a. cls_matches c x)
        \<and> regex_test r b"
    proof
      assume "regex_test (OneOrMore c # r) xs"
      then obtain a b where "xs = a @ b" "a \<noteq> []" "\<forall>x\<in>set a. cls_matches c x"
          "regex_test r b"
        using Cons.IH by blast
      then have "x # xs = (x # a) @ b \<and> x # a \<noteq> []
          \<and> (\<forall>y\<in>set (x # a). cls_matches c y) \<and> regex_test r b"
        using m by simp
      then show ?thesis by blast
    next
      assume "regex_test r xs"
      then have "x # xs = [x] @ xs \<and> [x] \<noteq> []
          \<and> (\<forall>y\<in>set [x]. cls_matches c y) \<and> regex_test r xs"
        using m by simp
      then show ?thesis by blast
    qed
  next
    assume "\<exists>a b. x # xs = a @ b \<and> a \<noteq> [] \<and> (\<forall>x\<in>set a. cls_matches c x)
        \<and> regex_test r b"
    then obtain a b where ab: "x # xs = a @ b" "a \<noteq> []" "\<forall>x\<in>set a. cls_matches c x"
        "regex_test r b"
      by blast
    then obtain a' where a: "a = x # a'" "xs = a' @ b"
      by (cases a) auto
    show "regex_test (OneOrMore c # r) (x # xs)"
    proof (cases "a' = []")
      case True
      then show ?thesis using a ab by simp
    next
      case False
      then have "regex_test (OneOrMore c # r) xs"
        using Cons.IH a ab by auto
      then show ?thesis using a ab by simp
    qed
  qed
qed

text \<open>
  What the pattern accepts: a non-empty local part, an at sign, and a rest with a full stop
  somewhere strictly inside it, all three parts free of white space and of further at signs.
\<close>

lemma emailRegex_matches_iff:
  "regex_test emailRegex s \<longleftrightarrow>
     (\<exists>a b c. s = a @ [0x40] @ b @ [0x2E] @ c \<and> a \<noteq> [] \<and> b \<noteq> [] \<and> c \<noteq> []
        \<and> (\<forall>x\<in>set (a @ b @ c). \<not> is_space x \<and> x \<noteq> 0x40))"
  unfolding emailRegex_def
  by (simp add: regex_test_OneOrMore regex_test_Once) fast


lemma handleSubmit_payloads:
  "fst (handleSubmit requestAccess st) =
     (if \<not> loading st
         \<and> trim (name (formData st)) \<noteq> []
         \<and> trim (mobile (formData st)) \<noteq> []
         \<and> trim (reason (formData st)) \<noteq> []
         \<and> (trim (email (formData st)) = []
            \<or> regex_test emailRegex (trim (email (formData st))))
      then
        [\<lparr>payload_name = trim (name (formData st)),
          payload_email =
            (if trim (email (formData st)) = [] then None
             else Some (trim (email (formData st)))),
          payload_mobile = trim (mobile (formData st)),
          payload_company =
            (if trim (company (formData st)) = [] then None
             else Some (trim (company (formData st)))),
          payload_reason = trim (reason (formData st))\<rparr>]
      else [])"
proof (cases "loading st \<or> trim (name (formData st)) = [] \<or> trim (mobile (formData st)) = []
    \<or> trim (reason (formData st)) = []")
  case True
  then show ?thesis by (auto simp: handleSubmit_def)
next
  case False
  then show ?thesis
    by (cases "trim (email (formData st)) = []")
      (simp_all add: handleSubmit_def Let_def split: option.split)
qed

theorem handleSubmit_calls:
  "fst (handleSubmit requestAccess st) =
     (if \<not> loading st
         \<and> trim (name (formData st)) \<noteq> []
         \<and> trim (mobile (formData st)) \<noteq> []
         \<and> trim (reason (formData st)) \<noteq> []
         \<and> (trim (email (formData st)) = []
            \<or> regex_test emailRegex (trim (email (formData st))))
      then
        [\<lparr>payload_name = trim (name (formData st)),
          payload_email =
            (if trim (email (formData st)) = [] then None
             else Some (trim (email (formData st)))),
          payload_mobile = trim (mobile (formData st)),
          payload_company =
            (if trim (company (formData st)) = [] then None
             else Some (trim (company (formData st)))),
          payload_reason = trim (reason (formData st))\<rparr>]
      else [])
   \<and> (fst (handleSubmit requestAccess (st\<lparr>formData := (formData st)\<lparr>company := c\<rparr>\<rparr>)) = []
        \<longleftrightarrow> fst (handleSubmit requestAccess st) = [])"
  by (simp add: handleSubmit_payloads)

theorem handleSubmit_calls_witness:
  "fst (handleSubmit (\<lambda>p. None)
      \<lparr>formData = \<lparr>name = js '' A '', email = js ''a@b.c '', mobile = js ''1'',
         company = js '' '', reason = js ''x''\<rparr>, loading = False, message = []\<rparr>)
    = [\<lparr>payload_name = js ''A'', payload_email = Some (js ''a@b.c''),
        payload_mobile = js ''1'', payload_company = None, payload_reason = js ''x''\<rparr>]
   \<and> fst (handleSubmit (\<lambda>p. None)
      \<lparr>formData = \<lparr>name = js ''A'', email = js ''a@b'', mobile = js ''1'',
         company = js ''C'', reason = js ''x''\<rparr>, loading = False, message = []\<rparr>) = []"
proof -
  have t: "trim (js '' A '') = js ''A''" "trim (js ''A'') = js ''A''"
    "trim (js ''a@b.c '') = js ''a@b.c''" "trim (js ''a@b'') = js ''a@b''"
    "trim (js ''1'') = js ''1''" "trim (js '' '') = []" "trim (js ''x'') = js ''x''"
    by code_simp+
  have r: "regex_test emailRegex (js ''a@b.c'')" "\<not> regex_test emailRegex (js ''a@b'')"
    by code_simp+
  have n: "js ''A'' \<noteq> []" "js ''1'' \<noteq> []" "js ''x'' \<noteq> []" "js ''a@b.c'' \<noteq> []"
    "js ''a@b'' \<noteq> []"
    by (simp_all add: js_def)
  show ?thesis
    using handleSubmit_calls [of "\<lambda>p. None"
      "\<lparr>formData = \<lparr>name = js '' A '', email = js ''a@b.c '', mobile = js ''1'',
         company = js '' '', reason = js ''x''\<rparr>, loading = False, message = []\<rparr>"]
    handleSubmit_calls [of "\<lambda>p. None"
      "\<lparr>formData = \<lparr>name = js ''A'', email = js ''a@b'', mobile = js ''1'',
         company = js ''C'', reason = js ''x''\<rparr>, loading = False, message = []\<rparr>"]
    by (simp add: t r n)
qed
section \<open>Properties of validation and the batch write\<close>





lemma insert_rows_distinct:
  "distinct (map ann_id rows) \<Longrightarrow> distinct (map ann_id (foldl insert_row rows cs))"
  by (induction cs arbitrary: rows) (simp_all add: insert_row_def)

text \<open>The batch write keeps the ids of the store distinct, as the unique key demands.\<close>

lemma write_batch_distinct:
  "distinct (map ann_id rows) \<Longrightarrow> distinct (map ann_id (write_batch rows items))"
  by (simp add: write_batch_def insert_rows_distinct)



section \<open>Properties of the fallback path\<close>

lemma query_marker_sound:
  "marker_sound st \<Longrightarrow> marker_sound (snd (query response symbol st))"
  unfolding marker_sound_def completed_def query_def
  by (auto simp: Let_def split: option.splits sum.splits)

lemma run_marker_sound:
  "marker_sound st \<Longrightarrow> marker_sound (run qs st)"
  by (induction qs arbitrary: st) (auto simp: query_marker_sound)

lemma query_skips:
  "markers st symbol = Some outcome \<Longrightarrow>
   query response symbol st = (filter (has_symbol symbol) (store st), st)"
  by (simp add: query_def Let_def)

lemma query_error:
  "filter (has_symbol symbol) (store st) = [] \<Longrightarrow> markers st symbol = None \<Longrightarrow>
   query (Inl e) symbol st = ([], st\<lparr>fetches := fetches st @ [(symbol, False)]\<rparr>)"
  by (simp add: query_def)

lemma query_fetch:
  "filter (has_symbol symbol) (store st) = [] \<Longrightarrow> markers st symbol = None \<Longrightarrow>
   fetches (snd (query (Inr items) symbol st)) = fetches st @ [(symbol, True)]
   \<and> markers (snd (query (Inr items) symbol st)) symbol \<noteq> None"
  by (simp add: query_def)

text \<open>
  Claim C3 as stated fails when the first fetch fails. From the empty service, two
  consecutive reads for \<open>XYZ\<close> both find no local row; the first fetch fails, no marker
  is written, and the second read calls the external service again: two calls, not one.
\<close>

theorem fallback_refetches_after_error:
  "filter (has_symbol ''XYZ'') (store start) = []
   \<and> filter (has_symbol ''XYZ'') (store (run [(Inl FallbackFetchError, ''XYZ'')] start)) = []
   \<and> \<not> attempted ''XYZ''
         (run [(Inl FallbackFetchError, ''XYZ''), (Inr [], ''XYZ'')] start) \<le> 1"
  by (simp add: start_def query_def attempted_def)

text \<open>
  Claim C3, amended. Over any sequence of symbol-filtered reads that starts with an empty
  call log, at most one external fetch for a symbol completes. A read that finds a
  FetchMarker for its symbol makes no external call, whatever outcome the marker records;
  a read that finds no local row and no marker, and whose fetch completes, makes exactly
  one call and records a marker.
\<close>

theorem fallback_one_completed_fetch:
  assumes "fetches st = []"
  shows "completed symbol (run qs st) \<le> 1
       \<and> (\<forall>st' outcome response. markers st' symbol = Some outcome \<longrightarrow>
             fetches (snd (query response symbol st')) = fetches st')
       \<and> (\<forall>st' items. filter (has_symbol symbol) (store st') = [] \<and> markers st' symbol = None
             \<longrightarrow> fetches (snd (query (Inr items) symbol st')) = fetches st' @ [(symbol, True)]
                \<and> markers (snd (query (Inr items) symbol st')) symbol \<noteq> None)"
proof (intro conjI allI impI)
  have "marker_sound st"
    using assms by (simp add: marker_sound_def completed_def)
  then have "marker_sound (run qs st)"
    by (rule run_marker_sound)
  then show "completed symbol (run qs st) \<le> 1"
    by (simp add: marker_sound_def)
next
  fix st' :: fallback_state and outcome response
  assume "markers st' symbol = Some outcome"
  then show "fetches (snd (query response symbol st')) = fetches st'"
    by (simp add: query_skips)
next
  fix st' :: fallback_state and items
  assume a: "filter (has_symbol symbol) (store st') = [] \<and> markers st' symbol = None"
  then show "fetches (snd (query (Inr items) symbol st')) = fetches st' @ [(symbol, True)]"
    using query_fetch by blast
  from a show "markers (snd (query (Inr items) symbol st')) symbol \<noteq> None"
    using query_fetch by blast
qed

theorem fallback_one_completed_fetch_witness:
  "fetches (run [(Inr [], ''XYZ''), (Inr [], ''XYZ'')] start) = [(''XYZ'', True)]
   \<and> completed ''XYZ'' (run [(Inr [], ''XYZ''), (Inr [], ''XYZ'')] start) \<le> 1"
proof -
  have e: "fetches start = []" by (simp add: start_def)
  have f: "fetches (run [(Inr [], ''XYZ''), (Inr [], ''XYZ'')] start) = [(''XYZ'', True)]"
    by (simp add: start_def query_def write_batch_def fresh_rows_def)
  show ?thesis
    using fallback_one_completed_fetch [OF e, of "''XYZ''" "[(Inr [], ''XYZ''), (Inr [], ''XYZ'')]"] f
    by simp
qed

text \<open>
  Claim C6. When a read finds no local row and no marker and its external fetch fails, the
  caller gets an empty result, the markers and the store are as before, one call is logged,
  and the next read for the same symbol calls the external service again.
\<close>

theorem fallback_error_writes_no_marker:
  assumes "filter (has_symbol symbol) (store st) = []" and "markers st symbol = None"
  shows "fst (query (Inl e) symbol st) = []
       \<and> markers (snd (query (Inl e) symbol st)) = markers st
       \<and> store (snd (query (Inl e) symbol st)) = store st
       \<and> attempted symbol (snd (query (Inl e) symbol st)) = attempted symbol st + 1
       \<and> attempted symbol (snd (query response symbol (snd (query (Inl e) symbol st))))
           = attempted symbol st + 2"
proof -
  have q: "query (Inl e) symbol st = ([], st\<lparr>fetches := fetches st @ [(symbol, False)]\<rparr>)"
    using assms by (rule query_error)
  have "attempted symbol (snd (query response symbol
          (st\<lparr>fetches := fetches st @ [(symbol, False)]\<rparr>))) = attempted symbol st + 2"
    using assms by (cases response) (simp_all add: query_def attempted_def)
  then show ?thesis
    by (simp add: q attempted_def)
qed

theorem fallback_error_writes_no_marker_witness:
  "fst (query (Inl FallbackFetchError) ''XYZ'' start) = []
   \<and> markers (snd (query (Inl FallbackFetchError) ''XYZ'' start)) = markers start
   \<and> attempted ''XYZ''
       (snd (query (Inr []) ''XYZ'' (snd (query (Inl FallbackFetchError) ''XYZ'' start)))) = 2"
proof -
  have a: "filter (has_symbol ''XYZ'') (store start) = []" "markers start ''XYZ'' = None"
    "attempted ''XYZ'' start = 0"
    by (simp_all add: start_def attempted_def)
  show ?thesis
    using fallback_error_writes_no_marker [OF a(1) a(2), of FallbackFetchError "Inr []"] a(3)
    by simp
qed

end
